theory Spec2Isabelle
  imports Main "HOL-Library.Sublist"
begin

section \<open>The rule object-curly-spacing (lib/rules/object-curly-spacing.js)\<close>

subsection \<open>Tokens, nodes and reports\<close>

text \<open>
  A token as the rule reads it: \<open>token.value\<close>, \<open>token.loc.start\<close>, \<open>token.loc.end\<close>
  (a line and a column each) and \<open>token.range\<close> (two offsets into the buffer). The
  fields carry a prefix where the JavaScript name is taken in Isabelle (\<open>value\<close>,
  \<open>end\<close>, \<open>range\<close>).
\<close>

record position =
  line :: nat
  column :: nat

record location =
  loc_start :: position
  loc_end :: position

record token =
  tok_value :: string
  tok_loc :: location
  tok_range :: "nat \<times> nat"

text \<open>
  The rule reads of a node its \<open>properties\<close> (object literals and patterns) or its
  \<open>specifiers\<close> (import and export declarations), and of a specifier its \<open>type\<close>.
  The host calls each handler with nodes of its own type only, so one record carries
  both sequences.
\<close>

record childNode =
  child_type :: string
  child_range :: "nat \<times> nat"

record astNode =
  node_type :: string
  node_range :: "nat \<times> nat"
  properties :: "childNode list"
  specifiers :: "childNode list"

text \<open>\<open>context.report(node, location, message)\<close> appends one report to the run's output.\<close>

record report =
  report_node :: astNode
  report_loc :: position
  message :: string

subsection \<open>The collaborators the rule is given\<close>

text \<open>
  \<open>require("../ast-utils")\<close> and \<open>context.getSourceCode()\<close> are not part of the rule's
  file. They are parameters of the model: every theorem below holds for any
  implementation of them. A token accessor that finds nothing returns \<open>null\<close>, which is
  \<open>None\<close> here.
\<close>

record astUtils =
  isTokenOnSameLine :: "token \<Rightarrow> token \<Rightarrow> bool"
  isTokenSpaced :: "token \<Rightarrow> token \<Rightarrow> bool"

datatype nodeOrToken = Node childNode | Token token

record sourceCode =
  getFirstToken :: "astNode \<Rightarrow> token option"
  getLastToken :: "astNode \<Rightarrow> token option"
  getTokenBefore :: "nodeOrToken \<Rightarrow> token option"
  getTokenAfter :: "nodeOrToken \<Rightarrow> token option"

text \<open>
  The model follows the handlers where every token they look up is found. Where a lookup
  returns \<open>null\<close>, the JavaScript passes the value on and raises a TypeError only where
  \<open>.value\<close> or \<open>.loc\<close> is read of it, which may be after the report of the opening side;
  the model returns \<open>Inl TypeError\<close> at the lookup and does not say what was reported
  before. The theorems C1 to C7 and C10 below say nothing of a call that returns \<open>Inl\<close>.
\<close>

datatype error = TypeError

subsection \<open>Option resolution\<close>

text \<open>
  \<open>context.options[0]\<close> is \<open>"always"\<close>, \<open>"never"\<close> or absent; \<open>context.options[1]\<close> is an
  object with boolean and string entries, or absent.
\<close>

datatype jsValue = JBool bool | JString string

record ruleContext =
  options0 :: "jsValue option"
  options1 :: "(string \<Rightarrow> jsValue option) option"

definition isSpaced :: "jsValue option \<Rightarrow> bool" where
  "isSpaced v = (v = Some (JString ''always''))"

definition isOptionSet :: "ruleContext \<Rightarrow> string \<Rightarrow> bool" where
  "isOptionSet ctx option =
     (let spaced = isSpaced (options0 ctx) in
      case options1 ctx of
        None \<Rightarrow> False
      | Some obj \<Rightarrow> obj option = Some (JBool (\<not> spaced)))"

definition getTypeDefault :: "ruleContext \<Rightarrow> string \<Rightarrow> bool" where
  "getTypeDefault ctx option =
     (let spaced = isSpaced (options0 ctx) in
      case options1 ctx of
        None \<Rightarrow> spaced
      | Some obj \<Rightarrow> (case obj option of None \<Rightarrow> spaced | Some v \<Rightarrow> isSpaced (Some v)))"

record options =
  spaced :: bool
  arraysInObjectsException :: bool
  objectsInObjectsException :: bool
  ObjectPattern :: bool
  ObjectExpression :: bool
  ImportDeclaration :: bool
  ExportNamedDeclaration :: bool

definition resolveOptions :: "ruleContext \<Rightarrow> options" where
  "resolveOptions ctx =
     \<lparr> spaced = isSpaced (options0 ctx),
       arraysInObjectsException = isOptionSet ctx ''arraysInObjects'',
       objectsInObjectsException = isOptionSet ctx ''objectsInObjects'',
       ObjectPattern = getTypeDefault ctx ''ObjectPattern'',
       ObjectExpression = getTypeDefault ctx ''ObjectExpression'',
       ImportDeclaration = getTypeDefault ctx ''ImportDeclaration'',
       ExportNamedDeclaration = getTypeDefault ctx ''ExportNamedDeclaration'' \<rparr>"

text \<open>
  \<open>options[nodeType]\<close>: the rule passes one of four literal keys, the names of the
  four constructs it checks.
\<close>

datatype nodeType = KObjectPattern | KObjectExpression | KImportDeclaration | KExportNamedDeclaration

fun optionsAt :: "options \<Rightarrow> nodeType \<Rightarrow> bool" where
  "optionsAt opts KObjectPattern = ObjectPattern opts"
| "optionsAt opts KObjectExpression = ObjectExpression opts"
| "optionsAt opts KImportDeclaration = ImportDeclaration opts"
| "optionsAt opts KExportNamedDeclaration = ExportNamedDeclaration opts"

subsection \<open>The four report helpers\<close>

definition quoted :: "string \<Rightarrow> string" where
  "quoted s = [CHR 0x27] @ s @ [CHR 0x27]"

definition reportNoBeginningSpace :: "astNode \<Rightarrow> token \<Rightarrow> report" where
  "reportNoBeginningSpace node tk =
     \<lparr> report_node = node, report_loc = loc_end (tok_loc tk),
       message = ''There should be no space after '' @ quoted (tok_value tk) \<rparr>"

definition reportNoEndingSpace :: "astNode \<Rightarrow> token \<Rightarrow> report" where
  "reportNoEndingSpace node tk =
     \<lparr> report_node = node, report_loc = loc_start (tok_loc tk),
       message = ''There should be no space before '' @ quoted (tok_value tk) \<rparr>"

definition reportRequiredBeginningSpace :: "astNode \<Rightarrow> token \<Rightarrow> report" where
  "reportRequiredBeginningSpace node tk =
     \<lparr> report_node = node, report_loc = loc_end (tok_loc tk),
       message = ''A space is required after '' @ quoted (tok_value tk) \<rparr>"

definition reportRequiredEndingSpace :: "astNode \<Rightarrow> token \<Rightarrow> report" where
  "reportRequiredEndingSpace node tk =
     \<lparr> report_node = node, report_loc = loc_start (tok_loc tk),
       message = ''A space is required before '' @ quoted (tok_value tk) \<rparr>"

subsection \<open>validateBraceSpacing\<close>

text \<open>
  The local \<open>closingCurlyBraceMustBeSpaced\<close> of \<open>validateBraceSpacing\<close>, as its own
  constant so that it can be spoken about. In the JavaScript, \<open>&&\<close> binds tighter than
  \<open>||\<close>, and the conditional operator is applied to the whole disjunction.
\<close>

definition closingCurlyBraceMustBeSpaced :: "options \<Rightarrow> nodeType \<Rightarrow> token \<Rightarrow> bool" where
  "closingCurlyBraceMustBeSpaced opts nodeType penultimate =
     (let spaced = optionsAt opts nodeType in
      if arraysInObjectsException opts \<and> tok_value penultimate = '']'' \<or>
         objectsInObjectsException opts \<and> tok_value penultimate = ''}''
      then \<not> spaced else spaced)"

text \<open>The reports of one call, in the order in which they are emitted.\<close>

definition validateBraceSpacing ::
  "astUtils \<Rightarrow> options \<Rightarrow> astNode \<Rightarrow> token \<Rightarrow> token \<Rightarrow> token \<Rightarrow> token \<Rightarrow> nodeType \<Rightarrow> report list" where
  "validateBraceSpacing au opts node first second penultimate lastTok nodeType =
     (let spaced = optionsAt opts nodeType;
          closing = closingCurlyBraceMustBeSpaced opts nodeType penultimate
      in
        (if isTokenOnSameLine au first second then
           (let firstSpaced = isTokenSpaced au first second in
              (if spaced \<and> \<not> firstSpaced then [reportRequiredBeginningSpace node first] else []) @
              (if \<not> spaced \<and> firstSpaced then [reportNoBeginningSpace node first] else []))
         else []) @
        (if isTokenOnSameLine au penultimate lastTok then
           (let lastSpaced = isTokenSpaced au penultimate lastTok in
              (if closing \<and> \<not> lastSpaced then [reportRequiredEndingSpace node lastTok] else []) @
              (if \<not> closing \<and> lastSpaced then [reportNoEndingSpace node lastTok] else []))
         else []))"

subsection \<open>The handlers\<close>

text \<open>\<open>xs[i]\<close> of a JavaScript array: \<open>undefined\<close> out of range.\<close>

definition at_index :: "'a list \<Rightarrow> nat \<Rightarrow> 'a option" where
  "at_index xs i = (if i < length xs then Some (xs ! i) else None)"

text \<open>A token that must be there: \<open>null\<close> raises the TypeError.\<close>

definition need :: "'a option \<Rightarrow> ('a \<Rightarrow> error + 'b) \<Rightarrow> error + 'b" where
  "need x k = (case x of None \<Rightarrow> Inl TypeError | Some t \<Rightarrow> k t)"

definition checkForObject ::
  "astUtils \<Rightarrow> sourceCode \<Rightarrow> options \<Rightarrow> astNode \<Rightarrow> nodeType \<Rightarrow> error + report list" where
  "checkForObject au sc opts node nodeType =
     (if length (properties node) = 0 then Inr []
      else
        need (getFirstToken sc node) (\<lambda>first.
        need (getLastToken sc node) (\<lambda>lastTok.
        need (getTokenAfter sc (Token first)) (\<lambda>second.
        need (getTokenBefore sc (Token lastTok)) (\<lambda>penultimate.
          Inr (validateBraceSpacing au opts node first second penultimate lastTok nodeType))))))"

definition checkForObjectPattern ::
  "astUtils \<Rightarrow> sourceCode \<Rightarrow> options \<Rightarrow> astNode \<Rightarrow> error + report list" where
  "checkForObjectPattern au sc opts node = checkForObject au sc opts node KObjectPattern"

definition checkForObjectExpression ::
  "astUtils \<Rightarrow> sourceCode \<Rightarrow> options \<Rightarrow> astNode \<Rightarrow> error + report list" where
  "checkForObjectExpression au sc opts node = checkForObject au sc opts node KObjectExpression"

definition checkForImport ::
  "astUtils \<Rightarrow> sourceCode \<Rightarrow> options \<Rightarrow> astNode \<Rightarrow> error + report list" where
  "checkForImport au sc opts node =
     (if length (specifiers node) = 0 then Inr []
      else
        need (at_index (specifiers node) 0) (\<lambda>firstSpecifier0.
        need (at_index (specifiers node) (length (specifiers node) - 1)) (\<lambda>lastSpecifier.
          if child_type lastSpecifier \<noteq> ''ImportSpecifier'' then Inr []
          else
            need (if child_type firstSpecifier0 \<noteq> ''ImportSpecifier''
                  then at_index (specifiers node) 1 else Some firstSpecifier0) (\<lambda>firstSpecifier.
            need (getTokenBefore sc (Node firstSpecifier)) (\<lambda>first.
            need (getTokenAfter sc (Node lastSpecifier)) (\<lambda>afterLast.
            need (if tok_value afterLast = '','' then getTokenAfter sc (Token afterLast) else Some afterLast) (\<lambda>lastTok.
            need (getTokenAfter sc (Token first)) (\<lambda>second.
            need (getTokenBefore sc (Token lastTok)) (\<lambda>penultimate.
              Inr (validateBraceSpacing au opts node first second penultimate lastTok
                     KImportDeclaration))))))))))"

definition checkForExport ::
  "astUtils \<Rightarrow> sourceCode \<Rightarrow> options \<Rightarrow> astNode \<Rightarrow> error + report list" where
  "checkForExport au sc opts node =
     (if length (specifiers node) = 0 then Inr []
      else
        need (at_index (specifiers node) 0) (\<lambda>firstSpecifier.
        need (at_index (specifiers node) (length (specifiers node) - 1)) (\<lambda>lastSpecifier.
        need (getTokenBefore sc (Node firstSpecifier)) (\<lambda>first.
        need (getTokenAfter sc (Node lastSpecifier)) (\<lambda>afterLast.
        need (if tok_value afterLast = '','' then getTokenAfter sc (Token afterLast) else Some afterLast) (\<lambda>lastTok.
        need (getTokenAfter sc (Token first)) (\<lambda>second.
        need (getTokenBefore sc (Token lastTok)) (\<lambda>penultimate.
          Inr (validateBraceSpacing au opts node first second penultimate lastTok
                 KExportNamedDeclaration)))))))))"

text \<open>The mapping the rule returns: one handler per node type.\<close>

fun handlers ::
  "astUtils \<Rightarrow> sourceCode \<Rightarrow> options \<Rightarrow> nodeType \<Rightarrow> astNode \<Rightarrow> error + report list" where
  "handlers au sc opts KObjectPattern = checkForObjectPattern au sc opts"
| "handlers au sc opts KObjectExpression = checkForObjectExpression au sc opts"
| "handlers au sc opts KImportDeclaration = checkForImport au sc opts"
| "handlers au sc opts KExportNamedDeclaration = checkForExport au sc opts"

subsection \<open>Sides of a delimiter pair, as the specification speaks of them\<close>

text \<open>
  The specification words the opening side's reports "... after X" and the closing
  side's "... before X". A report belongs to the side its message names.
\<close>

definition openingSideMessage :: "string \<Rightarrow> bool" where
  "openingSideMessage m =
     (prefix ''A space is required after '' m \<or> prefix ''There should be no space after '' m)"

definition closingSideMessage :: "string \<Rightarrow> bool" where
  "closingSideMessage m =
     (prefix ''A space is required before '' m \<or> prefix ''There should be no space before '' m)"

definition openingSide :: "report list \<Rightarrow> report list" where
  "openingSide rs = filter (\<lambda>r. openingSideMessage (message r)) rs"

definition closingSide :: "report list \<Rightarrow> report list" where
  "closingSide rs = filter (\<lambda>r. closingSideMessage (message r)) rs"

text \<open>
  The specification's table of the four outcomes of one side, from the required boolean
  \<open>mustBeSpaced\<close> and the computed \<open>isSpaced\<close>: the reports it asks for.
\<close>

fun sideOutcome :: "bool \<Rightarrow> bool \<Rightarrow> report \<Rightarrow> report \<Rightarrow> report list" where
  "sideOutcome True True required notAllowed = []"
| "sideOutcome True False required notAllowed = [required]"
| "sideOutcome False True required notAllowed = [notAllowed]"
| "sideOutcome False False required notAllowed = []"

text \<open>The key of \<open>context.options[1]\<close> that overrides the policy of a construct.\<close>

fun overrideKey :: "nodeType \<Rightarrow> string" where
  "overrideKey KObjectPattern = ''ObjectPattern''"
| "overrideKey KObjectExpression = ''ObjectExpression''"
| "overrideKey KImportDeclaration = ''ImportDeclaration''"
| "overrideKey KExportNamedDeclaration = ''ExportNamedDeclaration''"

subsection \<open>A concrete token accessor and concrete inputs\<close>

text \<open>
  Modelled from the spec: lib/ast-utils.js is missing. Two tokens are on the same line
  when the left one ends on the line on which the right one starts, and they are spaced
  when the gap between the end of the left and the start of the right is not empty.
  Only the concrete instances below use this implementation.
\<close>

definition specAstUtils :: astUtils where
  "specAstUtils =
     \<lparr> isTokenOnSameLine = (\<lambda>left right. line (loc_end (tok_loc left)) = line (loc_start (tok_loc right))),
       isTokenSpaced = (\<lambda>left right. snd (tok_range left) < fst (tok_range right)) \<rparr>"

fun rangeOf :: "nodeOrToken \<Rightarrow> nat \<times> nat" where
  "rangeOf (Node c) = child_range c"
| "rangeOf (Token t) = tok_range t"

text \<open>
  Modelled from the spec: the host's token store is missing. Over the ordered token
  sequence of a buffer: the first and the last token inside a node, the token
  immediately before and the token immediately after a node or token.
  Only the concrete instances below use this implementation.
\<close>

definition tokenStore :: "token list \<Rightarrow> sourceCode" where
  "tokenStore ts =
     \<lparr> getFirstToken = (\<lambda>n. find (\<lambda>t. fst (node_range n) \<le> fst (tok_range t)) ts),
       getLastToken = (\<lambda>n. find (\<lambda>t. snd (tok_range t) \<le> snd (node_range n)) (rev ts)),
       getTokenBefore = (\<lambda>x. find (\<lambda>t. snd (tok_range t) \<le> fst (rangeOf x)) (rev ts)),
       getTokenAfter = (\<lambda>x. find (\<lambda>t. snd (rangeOf x) \<le> fst (tok_range t)) ts) \<rparr>"

text \<open>A token from its text, its line, its column and its offset.\<close>

definition mkToken :: "string \<Rightarrow> nat \<Rightarrow> nat \<Rightarrow> nat \<Rightarrow> token" where
  "mkToken v ln col off =
     \<lparr> tok_value = v,
       tok_loc = \<lparr> loc_start = \<lparr> line = ln, column = col \<rparr>,
                   loc_end = \<lparr> line = ln, column = col + length v \<rparr> \<rparr>,
       tok_range = (off, off + length v) \<rparr>"

definition optionsAlways :: options where
  "optionsAlways = resolveOptions \<lparr> options0 = Some (JString ''always''), options1 = None \<rparr>"

definition optionsNever :: options where
  "optionsNever = resolveOptions \<lparr> options0 = Some (JString ''never''), options1 = None \<rparr>"

text \<open>The buffer \<^verbatim>\<open>var y = {x: 'y'}\<close>, its object literal and the four boundary tokens.\<close>

definition objOpen :: token where "objOpen = mkToken ''{'' 1 8 8"
definition objKey :: token where "objKey = mkToken ''x'' 1 9 9"
definition objString :: token where "objString = mkToken (quoted ''y'') 1 12 12"
definition objClose :: token where "objClose = mkToken ''}'' 1 15 15"

definition objTokens :: "token list" where
  "objTokens =
     [mkToken ''var'' 1 0 0, mkToken ''y'' 1 4 4, mkToken ''='' 1 6 6,
      objOpen, objKey, mkToken '':'' 1 10 10, objString, objClose]"

definition objNode :: astNode where
  "objNode =
     \<lparr> node_type = ''ObjectExpression'', node_range = (8, 16),
       properties = [\<lparr> child_type = ''Property'', child_range = (9, 15) \<rparr>],
       specifiers = [] \<rparr>"

text \<open>The buffer \<^verbatim>\<open>var y = {}\<close> and its empty object literal.\<close>

definition emptyObjTokens :: "token list" where
  "emptyObjTokens =
     [mkToken ''var'' 1 0 0, mkToken ''y'' 1 4 4, mkToken ''='' 1 6 6,
      mkToken ''{'' 1 8 8, mkToken ''}'' 1 9 9]"

definition emptyObjNode :: astNode where
  "emptyObjNode =
     \<lparr> node_type = ''ObjectExpression'', node_range = (8, 10), properties = [], specifiers = [] \<rparr>"

text \<open>
  A two-line buffer: \<^verbatim>\<open>var y = {\<close> on line 1 and \<^verbatim>\<open>  x: 1 }\<close> on line 2. The opening
  brace and the token after it are on different lines.
\<close>

definition brkOpen :: token where "brkOpen = mkToken ''{'' 1 8 8"
definition brkKey :: token where "brkKey = mkToken ''x'' 2 2 12"
definition brkOne :: token where "brkOne = mkToken ''1'' 2 5 15"
definition brkClose :: token where "brkClose = mkToken ''}'' 2 7 17"

definition brkNode :: astNode where
  "brkNode =
     \<lparr> node_type = ''ObjectExpression'', node_range = (8, 18),
       properties = [\<lparr> child_type = ''Property'', child_range = (12, 16) \<rparr>],
       specifiers = [] \<rparr>"

text \<open>
  The buffer \<^verbatim>\<open>import a, {b,} from 'x'\<close>: a default binding, one named specifier and a
  trailing comma.
\<close>

definition impOpen :: token where "impOpen = mkToken ''{'' 1 10 10"
definition impName :: token where "impName = mkToken ''b'' 1 11 11"
definition impComma :: token where "impComma = mkToken '','' 1 12 12"
definition impClose :: token where "impClose = mkToken ''}'' 1 13 13"

definition impTokens :: "token list" where
  "impTokens =
     [mkToken ''import'' 1 0 0, mkToken ''a'' 1 7 7, mkToken '','' 1 8 8,
      impOpen, impName, impComma, impClose,
      mkToken ''from'' 1 15 15, mkToken (quoted ''x'') 1 20 20]"

definition impDefault :: childNode where
  "impDefault = \<lparr> child_type = ''ImportDefaultSpecifier'', child_range = (7, 8) \<rparr>"

definition impNamed :: childNode where
  "impNamed = \<lparr> child_type = ''ImportSpecifier'', child_range = (11, 12) \<rparr>"

definition impNode :: astNode where
  "impNode =
     \<lparr> node_type = ''ImportDeclaration'', node_range = (0, 23),
       properties = [], specifiers = [impDefault, impNamed] \<rparr>"

text \<open>The buffer \<^verbatim>\<open>import a from 'x'\<close>: a default binding only.\<close>

definition defaultOnlyTokens :: "token list" where
  "defaultOnlyTokens =
     [mkToken ''import'' 1 0 0, mkToken ''a'' 1 7 7, mkToken ''from'' 1 9 9,
      mkToken (quoted ''x'') 1 14 14]"

definition defaultOnlyNode :: astNode where
  "defaultOnlyNode =
     \<lparr> node_type = ''ImportDeclaration'', node_range = (0, 17),
       properties = [], specifiers = [impDefault] \<rparr>"

text \<open>The buffer \<^verbatim>\<open>export {a,};\<close>: one specifier and a trailing comma.\<close>

definition expOpen :: token where "expOpen = mkToken ''{'' 1 7 7"
definition expName :: token where "expName = mkToken ''a'' 1 8 8"
definition expComma :: token where "expComma = mkToken '','' 1 9 9"
definition expClose :: token where "expClose = mkToken ''}'' 1 10 10"

definition expTokens :: "token list" where
  "expTokens =
     [mkToken ''export'' 1 0 0, expOpen, expName, expComma, expClose, mkToken '';'' 1 11 11]"

definition expSpecifier :: childNode where
  "expSpecifier = \<lparr> child_type = ''ExportSpecifier'', child_range = (8, 9) \<rparr>"

definition expNode :: astNode where
  "expNode =
     \<lparr> node_type = ''ExportNamedDeclaration'', node_range = (0, 12),
       properties = [], specifiers = [expSpecifier] \<rparr>"

text \<open>
  The options \<^verbatim>\<open>["always", { arraysInObjects: false, ObjectExpression: "never" }]\<close>, and the
  closing bracket of an array that ends an object literal, as in \<^verbatim>\<open>var y = {x: [1]}\<close>.
\<close>

definition arrClose :: token where "arrClose = mkToken '']'' 1 14 14"

definition overrideContext :: ruleContext where
  "overrideContext =
     \<lparr> options0 = Some (JString ''always''),
       options1 = Some [''arraysInObjects'' \<mapsto> JBool False,
                        ''ObjectExpression'' \<mapsto> JString ''never''] \<rparr>"

text \<open>
  The buffer \<^verbatim>\<open>var y = {x: [1]}\<close>: an object literal that ends with an array, whose
  closing bracket is \<open>arrClose\<close>.
\<close>

definition arrBraceOpen :: token where "arrBraceOpen = mkToken ''{'' 1 8 8"
definition arrKey :: token where "arrKey = mkToken ''x'' 1 9 9"
definition arrBraceClose :: token where "arrBraceClose = mkToken ''}'' 1 15 15"

definition arrTokens :: "token list" where
  "arrTokens =
     [mkToken ''var'' 1 0 0, mkToken ''y'' 1 4 4, mkToken ''='' 1 6 6,
      arrBraceOpen, arrKey, mkToken '':'' 1 10 10, mkToken ''['' 1 12 12,
      mkToken ''1'' 1 13 13, arrClose, arrBraceClose]"

definition arrNode :: astNode where
  "arrNode =
     \<lparr> node_type = ''ObjectExpression'', node_range = (8, 16),
       properties = [\<lparr> child_type = ''Property'', child_range = (9, 15) \<rparr>],
       specifiers = [] \<rparr>"

text \<open>
  The options \<^verbatim>\<open>["always", { arraysInObjects: false, ObjectExpression: "always" }]\<close>: an
  override that agrees with the global policy.
\<close>

definition agreeingOverrideContext :: ruleContext where
  "agreeingOverrideContext =
     \<lparr> options0 = Some (JString ''always''),
       options1 = Some [''arraysInObjects'' \<mapsto> JBool False,
                        ''ObjectExpression'' \<mapsto> JString ''always''] \<rparr>"

section \<open>The rule no-trailing-spaces (tests/lib/rules/no-trailing-spaces.js)\<close>

text \<open>
  Modelled from the spec: lib/rules/no-trailing-spaces.js is missing, only its tests are
  there. The definitions of this section follow the specification's line-end whitespace
  scanner: the buffer is split into physical lines at line feeds, each line's maximal
  trailing run of space and tab characters is found, a line made of whitespace only is
  skipped when \<open>skipBlankLines\<close> is set, and otherwise a non-empty run gives one
  violation, at the 1-based column of the run's first character, with a fix that
  replaces exactly the run by the empty text.
\<close>

definition isBlankChar :: "char \<Rightarrow> bool" where
  "isBlankChar c = (c = CHR '' '' \<or> c = CHR 0x09)"

fun splitLines :: "string \<Rightarrow> string list" where
  "splitLines [] = [[]]"
| "splitLines (c # cs) =
     (if c = CHR 0x0A then [] # splitLines cs
      else (case splitLines cs of [] \<Rightarrow> [[c]] | l # ls \<Rightarrow> (c # l) # ls))"

definition trailingRun :: "string \<Rightarrow> nat" where
  "trailingRun l = length (takeWhile isBlankChar (rev l))"

record violation =
  v_message :: string
  v_line :: nat
  v_column :: nat
  fixSpan :: "nat \<times> nat \<times> string"

text \<open>
  The lines from number \<open>n\<close> on, the first of them starting at offset \<open>off\<close> of the
  buffer; a line terminator is one character.
\<close>

fun scanLines :: "bool \<Rightarrow> nat \<Rightarrow> nat \<Rightarrow> string list \<Rightarrow> violation list" where
  "scanLines skipBlankLines n off [] = []"
| "scanLines skipBlankLines n off (l # ls) =
     (let k = trailingRun l;
          rest = scanLines skipBlankLines (n + 1) (off + length l + 1) ls
      in if skipBlankLines \<and> list_all isBlankChar l then rest
         else if 0 < k then
           \<lparr> v_message = ''Trailing spaces not allowed.'', v_line = n,
             v_column = length l - k + 1,
             fixSpan = (off + length l - k, off + length l, []) \<rparr> # rest
         else rest)"

definition lineEndScanner :: "bool \<Rightarrow> string \<Rightarrow> violation list" where
  "lineEndScanner skipBlankLines src = scanLines skipBlankLines 1 0 (splitLines src)"

text \<open>
  Applying the proposed fixes: each span is replaced by its text, the last span first,
  so that the offsets of the spans before it stay valid.
\<close>

definition applyFix :: "nat \<times> nat \<times> string \<Rightarrow> string \<Rightarrow> string" where
  "applyFix f src = (case f of (s, e, txt) \<Rightarrow> take s src @ txt @ drop e src)"

definition applyFixes :: "string \<Rightarrow> violation list \<Rightarrow> string" where
  "applyFixes src vs = foldr (\<lambda>v acc. applyFix (fixSpan v) acc) vs src"

text \<open>
  What the fixes should leave of a buffer: its lines, each without its trailing run
  (a whitespace-only line untouched when \<open>skipBlankLines\<close> is set), joined again by the
  line terminators.
\<close>

fun joinLines :: "string list \<Rightarrow> string" where
  "joinLines [] = []"
| "joinLines [l] = l"
| "joinLines (l # l' # ls) = l @ CHR 0x0A # joinLines (l' # ls)"

definition stripTrailing :: "string \<Rightarrow> string" where
  "stripTrailing l = take (length l - trailingRun l) l"

definition fixedLine :: "bool \<Rightarrow> string \<Rightarrow> string" where
  "fixedLine skipBlankLines l =
     (if skipBlankLines \<and> list_all isBlankChar l then l else stripTrailing l)"

text \<open>
  The offset in the buffer at which line \<open>i\<close> (counted from 0) starts: the lines before
  it, each with its terminator.
\<close>

definition lineStart :: "string list \<Rightarrow> nat \<Rightarrow> nat" where
  "lineStart ls i = sum_list (map (\<lambda>l. length l + 1) (take i ls))"

text \<open>The buffers of the tests that the specification quotes.\<close>

definition sixSpaceBuffer :: string where
  "sixSpaceBuffer = ''var a = 5;      '' @ [CHR 0x0A]"

definition twoLineBuffer :: string where
  "twoLineBuffer = ''var a = 5; '' @ [CHR 0x0A] @ '' b = 3; ''"

definition blankLinesBuffer :: string where
  "blankLinesBuffer =
     ''var a = '' @ quoted ''bar'' @ '';  '' @ [CHR 0x0A] @ '' '' @ [CHR 0x0A] @ [CHR 0x09]"

section \<open>Properties of object-curly-spacing\<close>

subsection \<open>Evaluating the concrete inputs\<close>

lemma mkToken_simps:
  "tok_value (mkToken v ln col off) = v"
  "loc_start (tok_loc (mkToken v ln col off)) = \<lparr> line = ln, column = col \<rparr>"
  "loc_end (tok_loc (mkToken v ln col off)) = \<lparr> line = ln, column = col + length v \<rparr>"
  "tok_range (mkToken v ln col off) = (off, off + length v)"
  by (simp_all add: mkToken_def)

lemma specAstUtils_simps:
  "isTokenOnSameLine specAstUtils l r = (line (loc_end (tok_loc l)) = line (loc_start (tok_loc r)))"
  "isTokenSpaced specAstUtils l r = (snd (tok_range l) < fst (tok_range r))"
  by (simp_all add: specAstUtils_def)

lemma tokenStore_simps:
  "getFirstToken (tokenStore ts) n = find (\<lambda>t. fst (node_range n) \<le> fst (tok_range t)) ts"
  "getLastToken (tokenStore ts) n = find (\<lambda>t. snd (tok_range t) \<le> snd (node_range n)) (rev ts)"
  "getTokenBefore (tokenStore ts) x = find (\<lambda>t. snd (tok_range t) \<le> fst (rangeOf x)) (rev ts)"
  "getTokenAfter (tokenStore ts) x = find (\<lambda>t. snd (rangeOf x) \<le> fst (tok_range t)) ts"
  by (simp_all add: tokenStore_def)

lemma optionsAlways_simps:
  "spaced optionsAlways = True"
  "arraysInObjectsException optionsAlways = False"
  "objectsInObjectsException optionsAlways = False"
  "ObjectPattern optionsAlways = True"
  "ObjectExpression optionsAlways = True"
  "ImportDeclaration optionsAlways = True"
  "ExportNamedDeclaration optionsAlways = True"
  by (simp_all add: optionsAlways_def resolveOptions_def getTypeDefault_def isSpaced_def isOptionSet_def)

lemma optionsNever_simps:
  "spaced optionsNever = False"
  "arraysInObjectsException optionsNever = False"
  "objectsInObjectsException optionsNever = False"
  "ObjectPattern optionsNever = False"
  "ObjectExpression optionsNever = False"
  "ImportDeclaration optionsNever = False"
  "ExportNamedDeclaration optionsNever = False"
  by (simp_all add: optionsNever_def resolveOptions_def getTypeDefault_def isSpaced_def isOptionSet_def)

lemma overrideContext_simps:
  "spaced (resolveOptions overrideContext) = True"
  "arraysInObjectsException (resolveOptions overrideContext) = True"
  "objectsInObjectsException (resolveOptions overrideContext) = False"
  "ObjectExpression (resolveOptions overrideContext) = False"
  "ObjectPattern (resolveOptions overrideContext) = True"
  by (simp_all add: overrideContext_def resolveOptions_def getTypeDefault_def isSpaced_def
      isOptionSet_def)

lemma imp_lookups:
  "getTokenBefore (tokenStore impTokens) (Node impNamed) = Some impOpen"
  "getTokenAfter (tokenStore impTokens) (Token impOpen) = Some impName"
  "getTokenAfter (tokenStore impTokens) (Node impNamed) = Some impComma"
  "getTokenAfter (tokenStore impTokens) (Token impComma) = Some impClose"
  "getTokenBefore (tokenStore impTokens) (Token impClose) = Some impComma"
  by (simp_all add: tokenStore_simps impTokens_def impNamed_def impOpen_def impName_def
      impComma_def impClose_def mkToken_def quoted_def)

lemma exp_lookups:
  "getTokenBefore (tokenStore expTokens) (Node expSpecifier) = Some expOpen"
  "getTokenAfter (tokenStore expTokens) (Token expOpen) = Some expName"
  "getTokenAfter (tokenStore expTokens) (Node expSpecifier) = Some expComma"
  "getTokenAfter (tokenStore expTokens) (Token expComma) = Some expClose"
  "getTokenBefore (tokenStore expTokens) (Token expClose) = Some expComma"
  by (simp_all add: tokenStore_simps expTokens_def expSpecifier_def expOpen_def expName_def
      expComma_def expClose_def mkToken_def)

lemma arr_lookups:
  "getFirstToken (tokenStore arrTokens) arrNode = Some arrBraceOpen"
  "getLastToken (tokenStore arrTokens) arrNode = Some arrBraceClose"
  "getTokenAfter (tokenStore arrTokens) (Token arrBraceOpen) = Some arrKey"
  "getTokenBefore (tokenStore arrTokens) (Token arrBraceClose) = Some arrClose"
  by (simp_all add: tokenStore_simps arrTokens_def arrNode_def arrBraceOpen_def arrKey_def
      arrClose_def arrBraceClose_def mkToken_def)

lemma agreeingOverrideContext_simps:
  "spaced (resolveOptions agreeingOverrideContext) = True"
  "arraysInObjectsException (resolveOptions agreeingOverrideContext) = True"
  "objectsInObjectsException (resolveOptions agreeingOverrideContext) = False"
  "ObjectExpression (resolveOptions agreeingOverrideContext) = True"
  by (simp_all add: agreeingOverrideContext_def resolveOptions_def getTypeDefault_def isSpaced_def
      isOptionSet_def)

subsection \<open>The side of each report\<close>

lemma opening_RequiredBeginning:
  "openingSideMessage (message (reportRequiredBeginningSpace node tk))"
  "\<not> closingSideMessage (message (reportRequiredBeginningSpace node tk))"
  by (simp_all add: openingSideMessage_def closingSideMessage_def reportRequiredBeginningSpace_def)

lemma opening_NoBeginning:
  "openingSideMessage (message (reportNoBeginningSpace node tk))"
  "\<not> closingSideMessage (message (reportNoBeginningSpace node tk))"
  by (simp_all add: openingSideMessage_def closingSideMessage_def reportNoBeginningSpace_def)

lemma closing_RequiredEnding:
  "closingSideMessage (message (reportRequiredEndingSpace node tk))"
  "\<not> openingSideMessage (message (reportRequiredEndingSpace node tk))"
  by (simp_all add: openingSideMessage_def closingSideMessage_def reportRequiredEndingSpace_def)

lemma closing_NoEnding:
  "closingSideMessage (message (reportNoEndingSpace node tk))"
  "\<not> openingSideMessage (message (reportNoEndingSpace node tk))"
  by (simp_all add: openingSideMessage_def closingSideMessage_def reportNoEndingSpace_def)

lemmas side_of_report =
  opening_RequiredBeginning opening_NoBeginning closing_RequiredEnding closing_NoEnding

lemma openingSide_validate:
  "openingSide (validateBraceSpacing au opts node first second penultimate lastTok nodeType) =
     (if isTokenOnSameLine au first second
      then sideOutcome (optionsAt opts nodeType) (isTokenSpaced au first second)
             (reportRequiredBeginningSpace node first) (reportNoBeginningSpace node first)
      else [])"
  by (cases "optionsAt opts nodeType"; cases "isTokenSpaced au first second")
     (simp_all add: validateBraceSpacing_def openingSide_def Let_def side_of_report)

lemma closingSide_validate:
  "closingSide (validateBraceSpacing au opts node first second penultimate lastTok nodeType) =
     (if isTokenOnSameLine au penultimate lastTok
      then sideOutcome (closingCurlyBraceMustBeSpaced opts nodeType penultimate)
             (isTokenSpaced au penultimate lastTok)
             (reportRequiredEndingSpace node lastTok) (reportNoEndingSpace node lastTok)
      else [])"
  by (cases "closingCurlyBraceMustBeSpaced opts nodeType penultimate";
      cases "isTokenSpaced au penultimate lastTok")
     (simp_all add: validateBraceSpacing_def closingSide_def Let_def side_of_report)

lemma validate_split:
  "validateBraceSpacing au opts node first second penultimate lastTok nodeType =
     openingSide (validateBraceSpacing au opts node first second penultimate lastTok nodeType) @
     closingSide (validateBraceSpacing au opts node first second penultimate lastTok nodeType)"
  by (simp add: validateBraceSpacing_def openingSide_def closingSide_def Let_def side_of_report)



lemma obj_validate:
  "validateBraceSpacing specAstUtils optionsAlways objNode objOpen objKey objString objClose KObjectExpression =
     [\<lparr> report_node = objNode, report_loc = \<lparr> line = 1, column = 9 \<rparr>,
         message = ''A space is required after '' @ quoted ''{'' \<rparr>,
      \<lparr> report_node = objNode, report_loc = \<lparr> line = 1, column = 15 \<rparr>,
         message = ''A space is required before '' @ quoted ''}'' \<rparr>]"
  by (simp add: validateBraceSpacing_def closingCurlyBraceMustBeSpaced_def optionsAlways_simps
      specAstUtils_simps objOpen_def objKey_def objString_def objClose_def mkToken_simps
      reportRequiredBeginningSpace_def reportRequiredEndingSpace_def quoted_def)


subsection \<open>Empty constructs\<close>

text \<open>
  C2. A handler given a construct whose inner sequence is empty (the properties of an
  object literal or pattern, the specifiers of an import or export declaration) returns
  normally and reports nothing, whatever the options, the tokens and the helpers are.
\<close>

theorem empty_construct_no_report:
  "(properties node = [] \<longrightarrow>
      checkForObjectPattern au sc opts node = Inr [] \<and>
      checkForObjectExpression au sc opts node = Inr []) \<and>
   (specifiers node = [] \<longrightarrow>
      checkForImport au sc opts node = Inr [] \<and>
      checkForExport au sc opts node = Inr [])"
  by (simp add: checkForObjectPattern_def checkForObjectExpression_def checkForObject_def
      checkForImport_def checkForExport_def)

theorem empty_construct_no_report_witness:
  "properties emptyObjNode = [] \<and> specifiers emptyObjNode = [] \<and>
   checkForObjectExpression specAstUtils (tokenStore emptyObjTokens) optionsAlways emptyObjNode = Inr [] \<and>
   checkForObjectPattern specAstUtils (tokenStore emptyObjTokens) optionsNever emptyObjNode = Inr [] \<and>
   checkForImport specAstUtils (tokenStore emptyObjTokens) optionsAlways emptyObjNode = Inr [] \<and>
   checkForExport specAstUtils (tokenStore emptyObjTokens) optionsNever emptyObjNode = Inr []"
  using empty_construct_no_report
      [of emptyObjNode specAstUtils "tokenStore emptyObjTokens" optionsAlways]
    empty_construct_no_report
      [of emptyObjNode specAstUtils "tokenStore emptyObjTokens" optionsNever]
  by (simp add: emptyObjNode_def)

subsection \<open>Line breaks\<close>

text \<open>
  C3. When the opening delimiter and the token after it are not on the same line, no
  report of the opening side is emitted and the reports are those of the closing side
  alone; when the penultimate token and the closing delimiter are not on the same line,
  no report of the closing side is emitted; when neither pair is on one line, nothing is
  reported at all.
\<close>

theorem cross_line_never_flagged:
  fixes au opts node first second penultimate lastTok nodeType
  defines "rs \<equiv> validateBraceSpacing au opts node first second penultimate lastTok nodeType"
  shows
    "(\<not> isTokenOnSameLine au first second \<longrightarrow> openingSide rs = [] \<and> rs = closingSide rs) \<and>
     (\<not> isTokenOnSameLine au penultimate lastTok \<longrightarrow> closingSide rs = [] \<and> rs = openingSide rs) \<and>
     (\<not> isTokenOnSameLine au first second \<and> \<not> isTokenOnSameLine au penultimate lastTok \<longrightarrow> rs = [])"
proof -
  have s: "rs = openingSide rs @ closingSide rs"
    unfolding rs_def by (rule validate_split)
  have o: "\<not> isTokenOnSameLine au first second \<Longrightarrow> openingSide rs = []"
    unfolding rs_def by (simp add: openingSide_validate)
  have c: "\<not> isTokenOnSameLine au penultimate lastTok \<Longrightarrow> closingSide rs = []"
    unfolding rs_def by (simp add: closingSide_validate)
  show ?thesis
    using s o c by (metis append_Nil append_Nil2)
qed

theorem cross_line_never_flagged_witness:
  "\<not> isTokenOnSameLine specAstUtils brkOpen brkKey \<and>
   isTokenSpaced specAstUtils brkOpen brkKey \<and>
   \<not> optionsAt optionsNever KObjectExpression \<and>
   openingSide (validateBraceSpacing specAstUtils optionsNever brkNode brkOpen brkKey brkOne brkClose
      KObjectExpression) = [] \<and>
   validateBraceSpacing specAstUtils optionsNever brkNode brkOpen brkKey brkOne brkClose
      KObjectExpression = [reportNoEndingSpace brkNode brkClose]"
proof -
  have a: "\<not> isTokenOnSameLine specAstUtils brkOpen brkKey"
    and b: "isTokenSpaced specAstUtils brkOpen brkKey"
    and c: "isTokenOnSameLine specAstUtils brkOne brkClose"
    and d: "isTokenSpaced specAstUtils brkOne brkClose"
    by (simp_all add: specAstUtils_simps brkOpen_def brkKey_def brkOne_def brkClose_def mkToken_simps)
  have e: "\<not> closingCurlyBraceMustBeSpaced optionsNever KObjectExpression brkOne"
    by (simp add: closingCurlyBraceMustBeSpaced_def optionsNever_simps)
  have f: "closingSide (validateBraceSpacing specAstUtils optionsNever brkNode brkOpen brkKey brkOne
      brkClose KObjectExpression) = [reportNoEndingSpace brkNode brkClose]"
    using c d e by (simp add: closingSide_validate)
  show ?thesis
    using cross_line_never_flagged
      [of specAstUtils brkOpen brkKey optionsNever brkNode brkOne brkClose KObjectExpression]
      a b f
    by (simp add: optionsNever_simps openingSide_def side_of_report)
qed

subsection \<open>The requirement of the closing side\<close>

text \<open>
  C4. The closing-side requirement is the negation of the construct's \<open>spaced\<close> value
  exactly when the arrays-in-objects exception is enabled and the penultimate token is
  \<open>]\<close>, or the objects-in-objects exception is enabled and the penultimate token is
  \<open>}\<close>; otherwise it is the construct's \<open>spaced\<close> value. The closing side is checked
  against that requirement.
\<close>

theorem closing_requirement_inverted_exactly:
  fixes opts nodeType penultimate
  defines "applies \<equiv>
     arraysInObjectsException opts \<and> tok_value penultimate = '']'' \<or>
     objectsInObjectsException opts \<and> tok_value penultimate = ''}''"
  shows
    "(closingCurlyBraceMustBeSpaced opts nodeType penultimate = (\<not> optionsAt opts nodeType)) = applies \<and>
     (closingCurlyBraceMustBeSpaced opts nodeType penultimate = optionsAt opts nodeType) = (\<not> applies) \<and>
     closingSide (validateBraceSpacing au opts node first second penultimate lastTok nodeType) =
       (if isTokenOnSameLine au penultimate lastTok
        then sideOutcome (optionsAt opts nodeType \<noteq> applies) (isTokenSpaced au penultimate lastTok)
               (reportRequiredEndingSpace node lastTok) (reportNoEndingSpace node lastTok)
        else [])"
proof -
  have m: "closingCurlyBraceMustBeSpaced opts nodeType penultimate = (optionsAt opts nodeType \<noteq> applies)"
    unfolding applies_def closingCurlyBraceMustBeSpaced_def Let_def by auto
  show ?thesis
    unfolding closingSide_validate m by auto
qed

theorem closing_requirement_inverted_exactly_witness:
  "arraysInObjectsException (resolveOptions overrideContext) \<and>
   \<not> objectsInObjectsException (resolveOptions overrideContext) \<and>
   optionsAt (resolveOptions overrideContext) KObjectPattern \<and>
   closingCurlyBraceMustBeSpaced (resolveOptions overrideContext) KObjectPattern arrClose = False \<and>
   closingCurlyBraceMustBeSpaced (resolveOptions overrideContext) KObjectPattern objClose = True \<and>
   closingSide (validateBraceSpacing specAstUtils (resolveOptions overrideContext) objNode
       objOpen objKey objString objClose KObjectPattern) =
     [reportRequiredEndingSpace objNode objClose]"
proof -
  have t: "tok_value arrClose = '']''" "tok_value objClose = ''}''" "tok_value objString \<noteq> '']''"
    "tok_value objString \<noteq> ''}''"
    by (simp_all add: arrClose_def objClose_def objString_def mkToken_def quoted_def)
  have l: "isTokenOnSameLine specAstUtils objString objClose"
    "\<not> isTokenSpaced specAstUtils objString objClose"
    by (simp_all add: specAstUtils_simps objString_def objClose_def mkToken_simps quoted_def)
  show ?thesis
    using closing_requirement_inverted_exactly
        [where opts = "resolveOptions overrideContext" and nodeType = KObjectPattern
           and penultimate = arrClose]
      closing_requirement_inverted_exactly
        [where opts = "resolveOptions overrideContext" and nodeType = KObjectPattern
           and penultimate = objClose]
      closing_requirement_inverted_exactly
        [where opts = "resolveOptions overrideContext" and nodeType = KObjectPattern
           and penultimate = objString and au = specAstUtils and node = objNode
           and first = objOpen and second = objKey and lastTok = objClose]
      t l
    by (simp add: overrideContext_simps)
qed

subsection \<open>The exception flags and the opening side\<close>

lemma optionsAt_exception_update:
  "optionsAt (opts\<lparr>arraysInObjectsException := a, objectsInObjectsException := b\<rparr>) nodeType =
   optionsAt opts nodeType"
  by (cases nodeType) simp_all

lemma openingSide_validate_update:
  "openingSide (validateBraceSpacing au
      (opts\<lparr>arraysInObjectsException := a, objectsInObjectsException := b\<rparr>)
      node first second penultimate lastTok nodeType) =
   openingSide (validateBraceSpacing au opts node first second penultimate lastTok nodeType)"
  by (simp only: openingSide_validate optionsAt_exception_update)

text \<open>
  Whatever the options are, a handler fails, or reports nothing, or reports what
  \<open>validateBraceSpacing\<close> reports on four tokens that do not depend on the options.
\<close>

lemma need_shape:
  assumes "\<And>t. x = Some t \<Longrightarrow>
      (\<forall>opts. k opts t = Inl TypeError) \<or> (\<forall>opts. k opts t = Inr []) \<or>
      (\<exists>f s p l. \<forall>opts. k opts t = Inr (validateBraceSpacing au opts node f s p l nt))"
  shows "(\<forall>opts. need x (k opts) = Inl TypeError) \<or> (\<forall>opts. need x (k opts) = Inr []) \<or>
      (\<exists>f s p l. \<forall>opts. need x (k opts) = Inr (validateBraceSpacing au opts node f s p l nt))"
proof (cases x)
  case None
  then show ?thesis by (simp add: need_def)
next
  case (Some t)
  with assms [OF Some] show ?thesis by (simp add: need_def)
qed

lemma checkForObject_shape:
  "(\<forall>opts. checkForObject au sc opts node nt = Inl TypeError) \<or>
   (\<forall>opts. checkForObject au sc opts node nt = Inr []) \<or>
   (\<exists>f s p l. \<forall>opts. checkForObject au sc opts node nt =
      Inr (validateBraceSpacing au opts node f s p l nt))"
proof (cases "length (properties node) = 0")
  case True
  then show ?thesis by (simp add: checkForObject_def)
next
  case False
  then show ?thesis
    unfolding checkForObject_def
    by (simp only: if_False) (intro need_shape, blast)
qed

lemma checkForExport_shape:
  "(\<forall>opts. checkForExport au sc opts node = Inl TypeError) \<or>
   (\<forall>opts. checkForExport au sc opts node = Inr []) \<or>
   (\<exists>f s p l. \<forall>opts. checkForExport au sc opts node =
      Inr (validateBraceSpacing au opts node f s p l KExportNamedDeclaration))"
proof (cases "length (specifiers node) = 0")
  case True
  then show ?thesis by (simp add: checkForExport_def)
next
  case False
  then show ?thesis
    unfolding checkForExport_def
    by (simp only: if_False) (intro need_shape, blast)
qed

lemma checkForImport_shape:
  "(\<forall>opts. checkForImport au sc opts node = Inl TypeError) \<or>
   (\<forall>opts. checkForImport au sc opts node = Inr []) \<or>
   (\<exists>f s p l. \<forall>opts. checkForImport au sc opts node =
      Inr (validateBraceSpacing au opts node f s p l KImportDeclaration))"
proof (cases "length (specifiers node) = 0")
  case True
  then show ?thesis by (simp add: checkForImport_def)
next
  case False
  have step: "(\<forall>opts. (if c then Inr [] else g opts) = Inl TypeError) \<or>
        (\<forall>opts. (if c then Inr [] else g opts) = Inr []) \<or>
        (\<exists>f s p l. \<forall>opts. (if c then Inr [] else g opts) =
           Inr (validateBraceSpacing au opts node f s p l KImportDeclaration))"
    if "(\<forall>opts. g opts = Inl TypeError) \<or> (\<forall>opts. g opts = Inr []) \<or>
        (\<exists>f s p l. \<forall>opts. g opts = Inr (validateBraceSpacing au opts node f s p l KImportDeclaration))"
    for c :: bool and g :: "options \<Rightarrow> error + report list"
    using that by (cases c) simp_all
  from False show ?thesis
    unfolding checkForImport_def
    by (simp only: if_False) (intro need_shape step, blast)
qed

lemma handlers_shape:
  "(\<forall>opts. handlers au sc opts nt node = Inl TypeError) \<or>
   (\<forall>opts. handlers au sc opts nt node = Inr []) \<or>
   (\<exists>f s p l. \<forall>opts. handlers au sc opts nt node =
      Inr (validateBraceSpacing au opts node f s p l nt))"
  using checkForObject_shape [of au sc node nt] checkForImport_shape [of au sc node]
    checkForExport_shape [of au sc node]
  by (cases nt) (simp_all add: checkForObjectPattern_def checkForObjectExpression_def)

text \<open>
  C5. Two runs whose options differ only in \<open>arraysInObjectsException\<close> and
  \<open>objectsInObjectsException\<close> give the same reports of the opening side: in
  \<open>validateBraceSpacing\<close> on any four tokens, and in each of the four handlers whenever the
  handler returns normally, that is whenever every token it looks up is found.
\<close>

theorem exceptions_leave_opening_side:
  fixes opts :: options and a b :: bool
  defines "opts' \<equiv> opts\<lparr>arraysInObjectsException := a, objectsInObjectsException := b\<rparr>"
  shows
    "openingSide (validateBraceSpacing au opts' node first second penultimate lastTok nodeType) =
       openingSide (validateBraceSpacing au opts node first second penultimate lastTok nodeType) \<and>
     (\<forall>rs. handlers au sc opts nodeType node = Inr rs \<longrightarrow>
        (\<exists>rs'. handlers au sc opts' nodeType node = Inr rs' \<and>
               openingSide rs' = openingSide rs))"
proof (intro conjI allI impI)
  show "openingSide (validateBraceSpacing au opts' node first second penultimate lastTok nodeType) =
       openingSide (validateBraceSpacing au opts node first second penultimate lastTok nodeType)"
    unfolding opts'_def by (rule openingSide_validate_update)
next
  fix rs
  assume r: "handlers au sc opts nodeType node = Inr rs"
  from handlers_shape [of au sc nodeType node]
  consider "\<forall>opts. handlers au sc opts nodeType node = Inl TypeError"
    | "\<forall>opts. handlers au sc opts nodeType node = Inr []"
    | f s p l where "\<forall>opts. handlers au sc opts nodeType node =
        Inr (validateBraceSpacing au opts node f s p l nodeType)"
    by blast
  then show "\<exists>rs'. handlers au sc opts' nodeType node = Inr rs' \<and> openingSide rs' = openingSide rs"
  proof cases
    case 1
    with r show ?thesis by simp
  next
    case 2
    with r show ?thesis by simp
  next
    case 3
    with r have "rs = validateBraceSpacing au opts node f s p l nodeType" by simp
    with 3 show ?thesis
      unfolding opts'_def by (simp add: openingSide_validate_update)
  qed
qed

theorem exceptions_leave_opening_side_witness:
  "handlers specAstUtils (tokenStore arrTokens) optionsAlways KObjectExpression arrNode =
     Inr [reportRequiredBeginningSpace arrNode arrBraceOpen,
          reportRequiredEndingSpace arrNode arrBraceClose] \<and>
   handlers specAstUtils (tokenStore arrTokens)
       (optionsAlways\<lparr>arraysInObjectsException := True, objectsInObjectsException := False\<rparr>)
       KObjectExpression arrNode =
     Inr [reportRequiredBeginningSpace arrNode arrBraceOpen] \<and>
   openingSide [reportRequiredBeginningSpace arrNode arrBraceOpen,
                reportRequiredEndingSpace arrNode arrBraceClose] =
     [reportRequiredBeginningSpace arrNode arrBraceOpen]"
proof -
  have p: "properties arrNode \<noteq> []"
    by (simp add: arrNode_def)
  have v: "validateBraceSpacing specAstUtils optionsAlways arrNode arrBraceOpen arrKey arrClose
             arrBraceClose KObjectExpression =
           [reportRequiredBeginningSpace arrNode arrBraceOpen,
            reportRequiredEndingSpace arrNode arrBraceClose]"
    "validateBraceSpacing specAstUtils
       (optionsAlways\<lparr>arraysInObjectsException := True, objectsInObjectsException := False\<rparr>)
       arrNode arrBraceOpen arrKey arrClose arrBraceClose KObjectExpression =
           [reportRequiredBeginningSpace arrNode arrBraceOpen]"
    by (simp_all add: validateBraceSpacing_def closingCurlyBraceMustBeSpaced_def optionsAlways_simps
        specAstUtils_simps arrBraceOpen_def arrKey_def arrClose_def arrBraceClose_def mkToken_simps)
  have h: "handlers specAstUtils (tokenStore arrTokens) optionsAlways KObjectExpression arrNode =
     Inr [reportRequiredBeginningSpace arrNode arrBraceOpen,
          reportRequiredEndingSpace arrNode arrBraceClose]"
    "handlers specAstUtils (tokenStore arrTokens)
       (optionsAlways\<lparr>arraysInObjectsException := True, objectsInObjectsException := False\<rparr>)
       KObjectExpression arrNode =
     Inr [reportRequiredBeginningSpace arrNode arrBraceOpen]"
    using p v by (simp_all add: checkForObjectExpression_def checkForObject_def arr_lookups need_def)
  show ?thesis
    using exceptions_leave_opening_side
        [where au = specAstUtils and sc = "tokenStore arrTokens" and opts = optionsAlways
           and a = True and b = False and node = arrNode and nodeType = KObjectExpression] h
    by (simp add: openingSide_def side_of_report)
qed

subsection \<open>Import and export declarations\<close>

lemma at_index_last: "xs \<noteq> [] \<Longrightarrow> at_index xs (length xs - 1) = Some (last xs)"
  by (simp add: at_index_def last_conv_nth)

lemma at_index_Cons:
  "at_index (x # xs) 0 = Some x"
  "at_index (x # y # ys) (Suc 0) = Some y"
  by (simp_all add: at_index_def)

lemma need_Some: "need (Some t) k = k t"
  by (simp add: need_def)

text \<open>
  C6. An import declaration with no specifier, or whose last specifier is not an
  \<open>ImportSpecifier\<close> (a default-only or a namespace import), makes \<open>checkForImport\<close>
  return normally with no report. When the first specifier is not an \<open>ImportSpecifier\<close>
  and the last one is, the opening boundary is the token before the second specifier.
\<close>

theorem import_skips_and_default_binding:
  "(specifiers node = [] \<or> child_type (last (specifiers node)) \<noteq> ''ImportSpecifier'' \<longrightarrow>
      checkForImport au sc opts node = Inr []) \<and>
   (specifiers node = d # n # rest \<and>
    child_type d \<noteq> ''ImportSpecifier'' \<and>
    child_type (last (n # rest)) = ''ImportSpecifier'' \<and>
    getTokenBefore sc (Node n) = Some first \<and>
    getTokenAfter sc (Token first) = Some second \<and>
    getTokenAfter sc (Node (last (n # rest))) = Some afterLast \<and>
    (if tok_value afterLast = '','' then getTokenAfter sc (Token afterLast) else Some afterLast) = Some lastTok \<and>
    getTokenBefore sc (Token lastTok) = Some penultimate \<longrightarrow>
      checkForImport au sc opts node =
        Inr (validateBraceSpacing au opts node first second penultimate lastTok KImportDeclaration))"
proof (intro conjI impI)
  assume "specifiers node = [] \<or> child_type (last (specifiers node)) \<noteq> ''ImportSpecifier''"
  then show "checkForImport au sc opts node = Inr []"
  proof
    assume "specifiers node = []"
    then show ?thesis by (simp add: checkForImport_def)
  next
    assume t: "child_type (last (specifiers node)) \<noteq> ''ImportSpecifier''"
    show ?thesis
    proof (cases "specifiers node")
      case Nil
      then show ?thesis by (simp add: checkForImport_def)
    next
      case (Cons x xs)
      then have "at_index (specifiers node) (length (specifiers node) - 1) = Some (last (specifiers node))"
        by (intro at_index_last) simp
      with Cons t show ?thesis
        by (simp add: checkForImport_def at_index_Cons need_Some)
    qed
  qed
next
  assume h: "specifiers node = d # n # rest \<and>
    child_type d \<noteq> ''ImportSpecifier'' \<and>
    child_type (last (n # rest)) = ''ImportSpecifier'' \<and>
    getTokenBefore sc (Node n) = Some first \<and>
    getTokenAfter sc (Token first) = Some second \<and>
    getTokenAfter sc (Node (last (n # rest))) = Some afterLast \<and>
    (if tok_value afterLast = '','' then getTokenAfter sc (Token afterLast) else Some afterLast) = Some lastTok \<and>
    getTokenBefore sc (Token lastTok) = Some penultimate"
  then have l: "at_index (specifiers node) (length (specifiers node) - 1) = Some (last (n # rest))"
    using at_index_last [of "specifiers node"] by simp
  from h l show "checkForImport au sc opts node =
        Inr (validateBraceSpacing au opts node first second penultimate lastTok KImportDeclaration)"
    by (simp add: checkForImport_def at_index_Cons need_Some del: last.simps)
qed

theorem import_skips_and_default_binding_witness:
  "specifiers defaultOnlyNode = [impDefault] \<and>
   child_type impDefault = ''ImportDefaultSpecifier'' \<and>
   checkForImport specAstUtils (tokenStore defaultOnlyTokens) optionsAlways defaultOnlyNode = Inr [] \<and>
   specifiers impNode = [impDefault, impNamed] \<and>
   child_type impNamed = ''ImportSpecifier'' \<and>
   getTokenBefore (tokenStore impTokens) (Node impNamed) = Some impOpen \<and>
   checkForImport specAstUtils (tokenStore impTokens) optionsAlways impNode =
     Inr (validateBraceSpacing specAstUtils optionsAlways impNode impOpen impName impComma impClose
            KImportDeclaration)"
proof -
  have a: "specifiers defaultOnlyNode = [impDefault]" "specifiers impNode = [impDefault, impNamed]"
    "child_type impDefault = ''ImportDefaultSpecifier''" "child_type impNamed = ''ImportSpecifier''"
    by (simp_all add: defaultOnlyNode_def impNode_def impDefault_def impNamed_def)
  have c: "tok_value impComma = '',''"
    by (simp add: impComma_def mkToken_def)
  show ?thesis
    using import_skips_and_default_binding
        [where node = defaultOnlyNode and au = specAstUtils
           and sc = "tokenStore defaultOnlyTokens" and opts = optionsAlways]
      import_skips_and_default_binding
        [where node = impNode and d = impDefault and n = impNamed and rest = "[]"
           and sc = "tokenStore impTokens" and first = impOpen and second = impName
           and afterLast = impComma and lastTok = impClose and penultimate = impComma
           and au = specAstUtils and opts = optionsAlways]
      a c imp_lookups
    by simp
qed

text \<open>
  A report of the closing side is located at the start of the closing boundary token and
  names that token's text.
\<close>

lemma closing_report_names_last:
  "r \<in> set (closingSide (validateBraceSpacing au opts node first second penultimate lastTok nodeType))
   \<Longrightarrow> report_loc r = loc_start (tok_loc lastTok) \<and> suffix (quoted (tok_value lastTok)) (message r)"
  unfolding closingSide_validate
  by (cases "closingCurlyBraceMustBeSpaced opts nodeType penultimate";
      cases "isTokenSpaced au penultimate lastTok")
     (auto simp: reportRequiredEndingSpace_def reportNoEndingSpace_def suffix_def split: if_splits)

text \<open>
  C7. In an export and in an import declaration, when the token after the last
  specifier is a comma, the closing boundary is the token after that comma and the
  penultimate token is the one before that boundary; every report of the closing side is
  located at that boundary and names it.
\<close>

theorem trailing_comma_stepped_over:
  "(specifiers node = s # rest \<and>
    getTokenBefore sc (Node s) = Some first \<and>
    getTokenAfter sc (Token first) = Some second \<and>
    getTokenAfter sc (Node (last (s # rest))) = Some comma \<and>
    tok_value comma = '','' \<and>
    getTokenAfter sc (Token comma) = Some lastTok \<and>
    getTokenBefore sc (Token lastTok) = Some penultimate \<longrightarrow>
      checkForExport au sc opts node =
        Inr (validateBraceSpacing au opts node first second penultimate lastTok
               KExportNamedDeclaration)) \<and>
   (specifiers node = s # rest \<and>
    child_type (last (s # rest)) = ''ImportSpecifier'' \<and>
    (if child_type s \<noteq> ''ImportSpecifier'' then at_index (s # rest) 1 else Some s) = Some fs \<and>
    getTokenBefore sc (Node fs) = Some first \<and>
    getTokenAfter sc (Token first) = Some second \<and>
    getTokenAfter sc (Node (last (s # rest))) = Some comma \<and>
    tok_value comma = '','' \<and>
    getTokenAfter sc (Token comma) = Some lastTok \<and>
    getTokenBefore sc (Token lastTok) = Some penultimate \<longrightarrow>
      checkForImport au sc opts node =
        Inr (validateBraceSpacing au opts node first second penultimate lastTok
               KImportDeclaration)) \<and>
   (\<forall>r \<in> set (closingSide (validateBraceSpacing au opts node first second penultimate lastTok nodeType)).
      report_loc r = loc_start (tok_loc lastTok) \<and>
      suffix (quoted (tok_value lastTok)) (message r))"
proof (intro conjI impI ballI)
  assume h: "specifiers node = s # rest \<and>
    getTokenBefore sc (Node s) = Some first \<and>
    getTokenAfter sc (Token first) = Some second \<and>
    getTokenAfter sc (Node (last (s # rest))) = Some comma \<and>
    tok_value comma = '','' \<and>
    getTokenAfter sc (Token comma) = Some lastTok \<and>
    getTokenBefore sc (Token lastTok) = Some penultimate"
  then have l: "at_index (specifiers node) (length (specifiers node) - 1) = Some (last (s # rest))"
    using at_index_last [of "specifiers node"] by simp
  from h l show "checkForExport au sc opts node =
        Inr (validateBraceSpacing au opts node first second penultimate lastTok
               KExportNamedDeclaration)"
    by (simp add: checkForExport_def at_index_Cons need_Some del: last.simps)
next
  assume h: "specifiers node = s # rest \<and>
    child_type (last (s # rest)) = ''ImportSpecifier'' \<and>
    (if child_type s \<noteq> ''ImportSpecifier'' then at_index (s # rest) 1 else Some s) = Some fs \<and>
    getTokenBefore sc (Node fs) = Some first \<and>
    getTokenAfter sc (Token first) = Some second \<and>
    getTokenAfter sc (Node (last (s # rest))) = Some comma \<and>
    tok_value comma = '','' \<and>
    getTokenAfter sc (Token comma) = Some lastTok \<and>
    getTokenBefore sc (Token lastTok) = Some penultimate"
  then have l: "at_index (specifiers node) (length (specifiers node) - 1) = Some (last (s # rest))"
    using at_index_last [of "specifiers node"] by simp
  from h l show "checkForImport au sc opts node =
        Inr (validateBraceSpacing au opts node first second penultimate lastTok
               KImportDeclaration)"
    by (auto simp add: checkForImport_def at_index_Cons need_Some simp del: last.simps
        split: if_splits)
next
  fix r
  assume "r \<in> set (closingSide (validateBraceSpacing au opts node first second penultimate lastTok nodeType))"
  then show "report_loc r = loc_start (tok_loc lastTok)"
    and "suffix (quoted (tok_value lastTok)) (message r)"
    by (simp_all add: closing_report_names_last)
qed

theorem trailing_comma_stepped_over_witness:
  "specifiers expNode = [expSpecifier] \<and>
   getTokenAfter (tokenStore expTokens) (Node expSpecifier) = Some expComma \<and>
   tok_value expComma = '','' \<and>
   getTokenAfter (tokenStore expTokens) (Token expComma) = Some expClose \<and>
   tok_value expClose = ''}'' \<and>
   checkForExport specAstUtils (tokenStore expTokens) optionsAlways expNode =
     Inr (validateBraceSpacing specAstUtils optionsAlways expNode expOpen expName expComma expClose
            KExportNamedDeclaration) \<and>
   checkForImport specAstUtils (tokenStore impTokens) optionsAlways impNode =
     Inr (validateBraceSpacing specAstUtils optionsAlways impNode impOpen impName impComma impClose
            KImportDeclaration) \<and>
   validateBraceSpacing specAstUtils optionsAlways expNode expOpen expName expComma expClose
       KExportNamedDeclaration =
     [reportRequiredBeginningSpace expNode expOpen, reportRequiredEndingSpace expNode expClose]"
proof -
  have a: "specifiers expNode = [expSpecifier]" "specifiers impNode = [impDefault, impNamed]"
    "child_type impDefault = ''ImportDefaultSpecifier''" "child_type impNamed = ''ImportSpecifier''"
    by (simp_all add: expNode_def impNode_def impDefault_def impNamed_def)
  have c: "tok_value impComma = '',''" "tok_value expComma = '',''" "tok_value expClose = ''}''"
    by (simp_all add: impComma_def expComma_def expClose_def mkToken_def)
  have v: "validateBraceSpacing specAstUtils optionsAlways expNode expOpen expName expComma expClose
       KExportNamedDeclaration =
     [reportRequiredBeginningSpace expNode expOpen, reportRequiredEndingSpace expNode expClose]"
    by (simp add: validateBraceSpacing_def closingCurlyBraceMustBeSpaced_def optionsAlways_simps
        specAstUtils_simps expOpen_def expName_def expComma_def expClose_def mkToken_simps)
  show ?thesis
    using trailing_comma_stepped_over
        [where node = expNode and s = expSpecifier and rest = "[]"
           and sc = "tokenStore expTokens" and first = expOpen and second = expName
           and comma = expComma and lastTok = expClose and penultimate = expComma
           and au = specAstUtils and opts = optionsAlways]
      trailing_comma_stepped_over
        [where node = impNode and s = impDefault and rest = "[impNamed]" and fs = impNamed
           and sc = "tokenStore impTokens" and first = impOpen and second = impName
           and comma = impComma and lastTok = impClose and penultimate = impComma
           and au = specAstUtils and opts = optionsAlways]
      a c v imp_lookups exp_lookups
    by (simp add: at_index_Cons)
qed

subsection \<open>Resolution of the exception flags\<close>

text \<open>
  C10, as stated, fails: with the global policy \<open>"always"\<close>, \<open>arraysInObjects: false\<close> and the
  override \<open>ObjectExpression: "never"\<close>, the exception is enabled and applies to a
  penultimate \<open>]\<close>, and the closing-side requirement it produces is the global default.
\<close>

theorem exception_reinforces_global_default_counterexample:
  "arraysInObjectsException (resolveOptions overrideContext) \<and>
   tok_value arrClose = '']'' \<and>
   spaced (resolveOptions overrideContext) \<and>
   closingCurlyBraceMustBeSpaced (resolveOptions overrideContext) KObjectExpression arrClose =
     spaced (resolveOptions overrideContext)"
  by (simp add: overrideContext_simps closingCurlyBraceMustBeSpaced_def arrClose_def mkToken_def)

text \<open>
  C10, amended. A resolved exception flag is true exactly when the second options object
  is present and its entry is the boolean negation of the global \<open>spaced\<close> setting; an
  absent object, an absent entry or an entry equal to the global setting leaves it
  false. Where an exception applies, the closing-side requirement is the negation of the
  construct's own \<open>spaced\<close> value; it is the negation of the global default exactly when
  the construct's value equals the global setting, as it does when the construct has no
  override.
\<close>

theorem resolved_exception_flags:
  fixes ctx :: ruleContext and nodeType penultimate
  defines "opts \<equiv> resolveOptions ctx"
  defines "applies \<equiv>
     arraysInObjectsException opts \<and> tok_value penultimate = '']'' \<or>
     objectsInObjectsException opts \<and> tok_value penultimate = ''}''"
  shows
    "arraysInObjectsException opts =
       (\<exists>obj. options1 ctx = Some obj \<and> obj ''arraysInObjects'' = Some (JBool (\<not> spaced opts))) \<and>
     objectsInObjectsException opts =
       (\<exists>obj. options1 ctx = Some obj \<and> obj ''objectsInObjects'' = Some (JBool (\<not> spaced opts))) \<and>
     (options1 ctx = None \<longrightarrow>
        \<not> arraysInObjectsException opts \<and> \<not> objectsInObjectsException opts) \<and>
     (\<forall>obj. options1 ctx = Some obj \<and>
        (obj ''arraysInObjects'' = None \<or> obj ''arraysInObjects'' = Some (JBool (spaced opts))) \<longrightarrow>
        \<not> arraysInObjectsException opts) \<and>
     (\<forall>obj. options1 ctx = Some obj \<and>
        (obj ''objectsInObjects'' = None \<or> obj ''objectsInObjects'' = Some (JBool (spaced opts))) \<longrightarrow>
        \<not> objectsInObjectsException opts) \<and>
     (applies \<longrightarrow>
        closingCurlyBraceMustBeSpaced opts nodeType penultimate = (\<not> optionsAt opts nodeType)) \<and>
     (applies \<longrightarrow>
        (closingCurlyBraceMustBeSpaced opts nodeType penultimate = (\<not> spaced opts)) =
        (optionsAt opts nodeType = spaced opts)) \<and>
     ((\<forall>obj. options1 ctx = Some obj \<longrightarrow> obj (overrideKey nodeType) = None) \<longrightarrow>
        optionsAt opts nodeType = spaced opts)"
proof -
  have sp: "spaced opts = isSpaced (options0 ctx)"
    by (simp add: opts_def resolveOptions_def)
  have a: "arraysInObjectsException opts =
       (\<exists>obj. options1 ctx = Some obj \<and> obj ''arraysInObjects'' = Some (JBool (\<not> spaced opts)))"
    unfolding sp by (simp add: opts_def resolveOptions_def isOptionSet_def split: option.splits)
  have b: "objectsInObjectsException opts =
       (\<exists>obj. options1 ctx = Some obj \<and> obj ''objectsInObjects'' = Some (JBool (\<not> spaced opts)))"
    unfolding sp by (simp add: opts_def resolveOptions_def isOptionSet_def split: option.splits)
  have c: "applies \<Longrightarrow>
        closingCurlyBraceMustBeSpaced opts nodeType penultimate = (\<not> optionsAt opts nodeType)"
    unfolding applies_def by (simp add: closingCurlyBraceMustBeSpaced_def)
  have d: "(\<forall>obj. options1 ctx = Some obj \<longrightarrow> obj (overrideKey nodeType) = None) \<Longrightarrow>
        optionsAt opts nodeType = spaced opts"
    by (cases nodeType; cases "options1 ctx")
       (simp_all add: opts_def resolveOptions_def getTypeDefault_def)
  show ?thesis
    using a b c d by auto
qed

theorem resolved_exception_flags_witness:
  "arraysInObjectsException (resolveOptions overrideContext) \<and>
   \<not> objectsInObjectsException (resolveOptions overrideContext) \<and>
   tok_value arrClose = '']'' \<and>
   closingCurlyBraceMustBeSpaced (resolveOptions overrideContext) KObjectExpression arrClose =
     (\<not> optionsAt (resolveOptions overrideContext) KObjectExpression) \<and>
   optionsAt (resolveOptions overrideContext) KObjectExpression \<noteq> spaced (resolveOptions overrideContext) \<and>
   closingCurlyBraceMustBeSpaced (resolveOptions overrideContext) KObjectExpression arrClose =
     spaced (resolveOptions overrideContext) \<and>
   optionsAt (resolveOptions overrideContext) KObjectPattern = spaced (resolveOptions overrideContext) \<and>
   closingCurlyBraceMustBeSpaced (resolveOptions overrideContext) KObjectPattern arrClose =
     (\<not> spaced (resolveOptions overrideContext)) \<and>
   optionsAt (resolveOptions agreeingOverrideContext) KObjectExpression =
     spaced (resolveOptions agreeingOverrideContext) \<and>
   closingCurlyBraceMustBeSpaced (resolveOptions agreeingOverrideContext) KObjectExpression arrClose =
     (\<not> spaced (resolveOptions agreeingOverrideContext))"
proof -
  have t: "tok_value arrClose = '']''"
    by (simp add: arrClose_def mkToken_def)
  have o: "options1 overrideContext =
      Some [''arraysInObjects'' \<mapsto> JBool False, ''ObjectExpression'' \<mapsto> JString ''never'']"
    by (simp add: overrideContext_def)
  show ?thesis
    using resolved_exception_flags [of overrideContext arrClose KObjectExpression]
      resolved_exception_flags [of overrideContext arrClose KObjectPattern]
      resolved_exception_flags [of agreeingOverrideContext arrClose KObjectExpression] t o
    by (simp add: overrideContext_simps agreeingOverrideContext_simps)
qed

section \<open>Properties of no-trailing-spaces\<close>

subsection \<open>The fixes on any buffer\<close>

lemma splitLines_not_Nil: "splitLines s \<noteq> []"
  by (induction s) (auto split: list.splits)

lemma joinLines_splitLines: "joinLines (splitLines s) = s"
proof (induction s)
  case Nil
  then show ?case by simp
next
  case (Cons c cs)
  obtain l ls where e: "splitLines cs = l # ls"
    using splitLines_not_Nil [of cs] by (cases "splitLines cs") auto
  show ?case
  proof (cases "c = CHR 0x0A")
    case True
    with Cons e show ?thesis by simp
  next
    case False
    with Cons e show ?thesis by (cases ls) auto
  qed
qed

lemma trailingRun_le: "trailingRun l \<le> length l"
  unfolding trailingRun_def
  by (metis length_rev length_takeWhile_le)

lemma stripTrailing_id: "trailingRun l = 0 \<Longrightarrow> stripTrailing l = l"
  by (simp add: stripTrailing_def)

lemma applyFix_line:
  "k \<le> length l \<Longrightarrow>
   applyFix (length p + length l - k, length p + length l, []) (p @ l @ q) = p @ take (length l - k) l @ q"
  by (simp add: applyFix_def)

lemma applyFixes_Cons: "applyFixes src (v # vs) = applyFix (fixSpan v) (applyFixes src vs)"
  by (simp add: applyFixes_def)

lemma applyFixes_Nil: "applyFixes src [] = src"
  by (simp add: applyFixes_def)

lemma applyFixes_scanLines:
  "applyFixes (p @ joinLines ls) (scanLines skip n (length p) ls) =
     p @ joinLines (map (fixedLine skip) ls)"
proof (induction ls arbitrary: n p rule: joinLines.induct)
  case 1
  then show ?case by (simp add: applyFixes_Nil)
next
  case (2 l)
  show ?case
    using applyFix_line [OF trailingRun_le, where l = l and p = p and q = "[]"]
    by (simp add: Let_def applyFixes_Cons applyFixes_Nil fixedLine_def stripTrailing_def)
next
  case (3 l l' ls)
  define rest where "rest = scanLines skip (Suc n) (Suc (length p + length l)) (l' # ls)"
  define J where "J = joinLines (map (fixedLine skip) (l' # ls))"
  define src where "src = p @ l @ CHR 0x0A # joinLines (l' # ls)"
  have "applyFixes ((p @ l @ [CHR 0x0A]) @ joinLines (l' # ls))
              (scanLines skip (n + 1) (length (p @ l @ [CHR 0x0A])) (l' # ls)) =
            (p @ l @ [CHR 0x0A]) @ joinLines (map (fixedLine skip) (l' # ls))"
    by (rule "3.IH")
  then have ih: "applyFixes src rest = p @ l @ CHR 0x0A # J"
    by (simp add: rest_def J_def src_def)
  have j: "p @ joinLines (l # l' # ls) = src"
    and jf: "joinLines (map (fixedLine skip) (l # l' # ls)) = fixedLine skip l @ CHR 0x0A # J"
    by (simp_all add: src_def J_def)
  have fx: "applyFix (length p + length l - trailingRun l, length p + length l, [])
              (p @ l @ CHR 0x0A # J) = p @ stripTrailing l @ CHR 0x0A # J"
    unfolding stripTrailing_def by (rule applyFix_line [OF trailingRun_le])
  show ?case
  proof (cases "skip \<and> list_all isBlankChar l")
    case True
    then have "scanLines skip n (length p) (l # l' # ls) = rest"
      by (simp add: rest_def Let_def)
    with True ih show ?thesis
      unfolding j jf by (simp add: fixedLine_def)
  next
    case False
    then have f: "fixedLine skip l = stripTrailing l"
      by (auto simp add: fixedLine_def)
    show ?thesis
    proof (cases "0 < trailingRun l")
      case True
      with False have "scanLines skip n (length p) (l # l' # ls) =
          \<lparr> v_message = ''Trailing spaces not allowed.'', v_line = n,
            v_column = length l - trailingRun l + 1,
            fixSpan = (length p + length l - trailingRun l, length p + length l, []) \<rparr> # rest"
        by (simp add: rest_def Let_def)
      with ih fx show ?thesis
        unfolding j jf f by (simp add: applyFixes_Cons)
    next
      case z: False
      with False have "scanLines skip n (length p) (l # l' # ls) = rest"
        by (simp add: rest_def Let_def)
      with z ih show ?thesis
        unfolding j jf f by (simp add: stripTrailing_id)
    qed
  qed
qed

text \<open>
  On every buffer the fixes remove exactly the reported trailing runs: the lines keep
  their other characters and the line terminators stay.
\<close>

lemma fixes_strip_trailing_runs:
  "applyFixes src (lineEndScanner skip src) = joinLines (map (fixedLine skip) (splitLines src))"
  using applyFixes_scanLines [of "[]" "splitLines src" skip 1]
  by (simp add: lineEndScanner_def joinLines_splitLines)

subsection \<open>The buffers of the tests\<close>

lemma splitLines_twoLineBuffer:
  "splitLines twoLineBuffer = [''var a = 5; '', '' b = 3; '']"
  by (simp add: twoLineBuffer_def)

lemma trailingRun_lines:
  "trailingRun ''var a = 5; '' = 1" "trailingRun '' b = 3; '' = 1"
  by (simp_all add: trailingRun_def isBlankChar_def)

text \<open>
  What a violation says, on any buffer and with either setting of \<open>skipBlankLines\<close>: its
  line has a trailing run, its column is the 1-based position of the first character of
  that run, and its fix spans exactly the run.
\<close>

lemma lineStart_simps:
  "lineStart ls 0 = 0"
  "lineStart (l # ls) (Suc i) = length l + 1 + lineStart ls i"
  by (simp_all add: lineStart_def)

lemma scanLines_violation:
  "v \<in> set (scanLines skip n off ls) \<Longrightarrow>
     n \<le> v_line v \<and> v_line v < n + length ls \<and>
     0 < trailingRun (ls ! (v_line v - n)) \<and>
     v_message v = ''Trailing spaces not allowed.'' \<and>
     v_column v = length (ls ! (v_line v - n)) - trailingRun (ls ! (v_line v - n)) + 1 \<and>
     fixSpan v =
       (off + lineStart ls (v_line v - n) + length (ls ! (v_line v - n))
          - trailingRun (ls ! (v_line v - n)),
        off + lineStart ls (v_line v - n) + length (ls ! (v_line v - n)), [])"
proof (induction ls arbitrary: n off)
  case Nil
  then show ?case by simp
next
  case (Cons l ls)
  show ?case
  proof (cases "v \<in> set (scanLines skip (n + 1) (off + length l + 1) ls)")
    case True
    note ih = Cons.IH [OF True]
    from ih have a: "Suc n \<le> v_line v" by simp
    then have e: "v_line v - n = Suc (v_line v - (n + 1))" by arith
    show ?thesis
      unfolding e using ih by (simp add: lineStart_simps add.assoc)
  next
    case False
    with Cons.prems have "v = \<lparr> v_message = ''Trailing spaces not allowed.'', v_line = n,
             v_column = length l - trailingRun l + 1,
             fixSpan = (off + length l - trailingRun l, off + length l, []) \<rparr>"
      and "0 < trailingRun l"
      by (auto simp: Let_def split: if_splits)
    then show ?thesis by (simp add: lineStart_simps)
  qed
qed

lemma scanLines_complete:
  "i < length ls \<Longrightarrow> 0 < trailingRun (ls ! i) \<Longrightarrow>
     \<exists>v \<in> set (scanLines False n off ls). v_line v = n + i"
proof (induction ls arbitrary: n off i)
  case Nil
  then show ?case by simp
next
  case (Cons l ls)
  show ?case
  proof (cases i)
    case 0
    with Cons.prems show ?thesis by (simp add: Let_def)
  next
    case (Suc j)
    with Cons.prems have "j < length ls" "0 < trailingRun (ls ! j)" by simp_all
    from Cons.IH [OF this, of "n + 1" "off + length l + 1"]
    obtain v where "v \<in> set (scanLines False (n + 1) (off + length l + 1) ls)" "v_line v = n + 1 + j"
      by blast
    with Suc show ?thesis by (auto simp: Let_def)
  qed
qed

lemma scanLines_increasing: "sorted_wrt (<) (map v_line (scanLines skip n off ls))"
proof (induction ls arbitrary: n off)
  case Nil
  then show ?case by simp
next
  case (Cons l ls)
  have "\<forall>v \<in> set (scanLines skip (n + 1) (off + length l + 1) ls). n < v_line v"
    using scanLines_violation [of _ skip "n + 1" "off + length l + 1" ls] by fastforce
  with Cons.IH [of "n + 1" "off + length l + 1"] show ?case
    by (auto simp add: Let_def)
qed

lemma line_in_buffer:
  "i < length ls \<Longrightarrow> take (length (ls ! i)) (drop (lineStart ls i) (joinLines ls)) = ls ! i"
proof (induction ls arbitrary: i rule: joinLines.induct)
  case 1
  then show ?case by simp
next
  case (2 l)
  then show ?case by (simp add: lineStart_simps)
next
  case (3 l l' ls)
  show ?case
  proof (cases i)
    case 0
    then show ?thesis by (simp add: lineStart_simps)
  next
    case (Suc j)
    with "3.prems" have "j < length (l' # ls)" by simp
    from "3.IH" [OF this] Suc show ?thesis
      by (simp add: lineStart_simps)
  qed
qed

lemma trailingRun_all_blank: "list_all isBlankChar (drop (length l - trailingRun l) l)"
proof -
  have "drop (length l - trailingRun l) l = rev (take (trailingRun l) (rev l))"
    by (simp add: rev_take)
  also have "take (trailingRun l) (rev l) = takeWhile isBlankChar (rev l)"
    unfolding trailingRun_def by (rule takeWhile_eq_take [symmetric])
  finally show ?thesis
    by (simp add: list_all_iff) (metis set_takeWhileD)
qed

lemma trailingRun_maximal:
  assumes "trailingRun l < length l"
  shows "\<not> isBlankChar (l ! (length l - trailingRun l - 1))"
proof -
  let ?k = "trailingRun l"
  have k: "?k = length (takeWhile isBlankChar (rev l))"
    by (simp add: trailingRun_def)
  from assms have "?k < length (rev l)" by simp
  then have "\<not> isBlankChar (rev l ! ?k)"
    unfolding k by (rule nth_length_takeWhile)
  moreover have "rev l ! ?k = l ! (length l - Suc ?k)"
    using assms by (simp add: rev_nth)
  ultimately show ?thesis by simp
qed

text \<open>
  C8. Without \<open>skipBlankLines\<close>, on every buffer: each violation is on a line with a
  non-empty trailing run of spaces and tabs, at the column (counted from 1) of the run's
  first character, with a fix that replaces exactly the run, where it lies in the buffer,
  by the empty text; the run is the maximal one; every line with such a run has its
  violation, in the order of the lines; and applying the fixes gives the lines without
  their trailing runs, joined by the unchanged line terminators. On the buffer
  \<^verbatim>\<open>"var a = 5; \n b = 3; "\<close> this is exactly two violations, at line 1 column 11 and
  at line 2 column 8, and the fixed text \<^verbatim>\<open>"var a = 5;\n b = 3;"\<close>.
\<close>

theorem trailing_runs_reported_and_removed:
  fixes src :: string
  defines "ls \<equiv> splitLines src"
  defines "vs \<equiv> lineEndScanner False src"
  shows
    "joinLines ls = src \<and>
     (\<forall>v \<in> set vs.
        1 \<le> v_line v \<and> v_line v \<le> length ls \<and>
        0 < trailingRun (ls ! (v_line v - 1)) \<and>
        v_column v = length (ls ! (v_line v - 1)) - trailingRun (ls ! (v_line v - 1)) + 1 \<and>
        fixSpan v =
          (lineStart ls (v_line v - 1) + length (ls ! (v_line v - 1))
             - trailingRun (ls ! (v_line v - 1)),
           lineStart ls (v_line v - 1) + length (ls ! (v_line v - 1)), []) \<and>
        take (length (ls ! (v_line v - 1))) (drop (lineStart ls (v_line v - 1)) src)
          = ls ! (v_line v - 1)) \<and>
     (\<forall>l. trailingRun l \<le> length l \<and>
        list_all isBlankChar (drop (length l - trailingRun l) l) \<and>
        (trailingRun l < length l \<longrightarrow> \<not> isBlankChar (l ! (length l - trailingRun l - 1)))) \<and>
     (\<forall>i < length ls. 0 < trailingRun (ls ! i) \<longrightarrow> (\<exists>v \<in> set vs. v_line v = i + 1)) \<and>
     sorted_wrt (<) (map v_line vs) \<and>
     applyFixes src vs = joinLines (map stripTrailing ls) \<and>
     lineEndScanner False twoLineBuffer =
       [\<lparr> v_message = ''Trailing spaces not allowed.'', v_line = 1, v_column = 11,
           fixSpan = (10, 11, []) \<rparr>,
        \<lparr> v_message = ''Trailing spaces not allowed.'', v_line = 2, v_column = 8,
           fixSpan = (19, 20, []) \<rparr>] \<and>
     applyFixes twoLineBuffer (lineEndScanner False twoLineBuffer) =
       ''var a = 5;'' @ [CHR 0x0A] @ '' b = 3;''"
proof -
  have j: "joinLines ls = src"
    unfolding ls_def by (rule joinLines_splitLines)
  have v: "\<forall>v \<in> set vs.
        1 \<le> v_line v \<and> v_line v \<le> length ls \<and>
        0 < trailingRun (ls ! (v_line v - 1)) \<and>
        v_column v = length (ls ! (v_line v - 1)) - trailingRun (ls ! (v_line v - 1)) + 1 \<and>
        fixSpan v =
          (lineStart ls (v_line v - 1) + length (ls ! (v_line v - 1))
             - trailingRun (ls ! (v_line v - 1)),
           lineStart ls (v_line v - 1) + length (ls ! (v_line v - 1)), []) \<and>
        take (length (ls ! (v_line v - 1))) (drop (lineStart ls (v_line v - 1)) src)
          = ls ! (v_line v - 1)"
  proof
    fix v
    assume "v \<in> set vs"
    then have m: "v \<in> set (scanLines False 1 0 ls)"
      by (simp add: vs_def ls_def lineEndScanner_def)
    note f = scanLines_violation [OF m]
    from f have "v_line v - 1 < length ls" by arith
    from line_in_buffer [OF this] have "take (length (ls ! (v_line v - 1)))
        (drop (lineStart ls (v_line v - 1)) src) = ls ! (v_line v - 1)"
      by (simp add: j)
    with f show "1 \<le> v_line v \<and> v_line v \<le> length ls \<and>
        0 < trailingRun (ls ! (v_line v - 1)) \<and>
        v_column v = length (ls ! (v_line v - 1)) - trailingRun (ls ! (v_line v - 1)) + 1 \<and>
        fixSpan v =
          (lineStart ls (v_line v - 1) + length (ls ! (v_line v - 1))
             - trailingRun (ls ! (v_line v - 1)),
           lineStart ls (v_line v - 1) + length (ls ! (v_line v - 1)), []) \<and>
        take (length (ls ! (v_line v - 1))) (drop (lineStart ls (v_line v - 1)) src)
          = ls ! (v_line v - 1)"
      by simp
  qed
  have r: "\<forall>l. trailingRun l \<le> length l \<and>
        list_all isBlankChar (drop (length l - trailingRun l) l) \<and>
        (trailingRun l < length l \<longrightarrow> \<not> isBlankChar (l ! (length l - trailingRun l - 1)))"
    using trailingRun_le trailingRun_all_blank trailingRun_maximal by blast
  have c: "\<forall>i < length ls. 0 < trailingRun (ls ! i) \<longrightarrow> (\<exists>v \<in> set vs. v_line v = i + 1)"
    using scanLines_complete [of _ ls 1 0] by (simp add: vs_def ls_def lineEndScanner_def)
  have s: "sorted_wrt (<) (map v_line vs)"
    unfolding vs_def lineEndScanner_def by (rule scanLines_increasing)
  have a: "applyFixes src vs = joinLines (map stripTrailing ls)"
  proof -
    have "fixedLine False = stripTrailing"
      by (rule ext) (simp add: fixedLine_def)
    with fixes_strip_trailing_runs [of src False] show ?thesis
      by (simp add: vs_def ls_def)
  qed
  have e1: "lineEndScanner False twoLineBuffer =
       [\<lparr> v_message = ''Trailing spaces not allowed.'', v_line = 1, v_column = 11,
           fixSpan = (10, 11, []) \<rparr>,
        \<lparr> v_message = ''Trailing spaces not allowed.'', v_line = 2, v_column = 8,
           fixSpan = (19, 20, []) \<rparr>]"
    by (simp add: lineEndScanner_def splitLines_twoLineBuffer trailingRun_lines Let_def)
  have e2: "applyFixes twoLineBuffer (lineEndScanner False twoLineBuffer) =
       ''var a = 5;'' @ [CHR 0x0A] @ '' b = 3;''"
    unfolding e1 by (simp add: applyFixes_def applyFix_def twoLineBuffer_def)
  show ?thesis
    by (intro conjI j v r c s a e1 e2)
qed

lemma splitLines_sixSpaceBuffer: "splitLines sixSpaceBuffer = [''var a = 5;      '', []]"
  by (simp add: sixSpaceBuffer_def)

lemma trailingRun_sixSpace: "trailingRun ''var a = 5;      '' = 6"
  by (simp add: trailingRun_def isBlankChar_def)

theorem trailing_runs_reported_and_removed_witness:
  "lineEndScanner False sixSpaceBuffer =
     [\<lparr> v_message = ''Trailing spaces not allowed.'', v_line = 1, v_column = 11,
         fixSpan = (10, 16, []) \<rparr>] \<and>
   splitLines sixSpaceBuffer ! 0 = ''var a = 5;      '' \<and>
   trailingRun (splitLines sixSpaceBuffer ! 0) = 6 \<and>
   lineStart (splitLines sixSpaceBuffer) 0 = 0 \<and>
   applyFixes sixSpaceBuffer (lineEndScanner False sixSpaceBuffer) = ''var a = 5;'' @ [CHR 0x0A]"
proof -
  have s: "lineEndScanner False sixSpaceBuffer =
     [\<lparr> v_message = ''Trailing spaces not allowed.'', v_line = 1, v_column = 11,
         fixSpan = (10, 16, []) \<rparr>]"
    by (simp add: lineEndScanner_def splitLines_sixSpaceBuffer trailingRun_sixSpace
        trailingRun_def isBlankChar_def Let_def)
  have t: "stripTrailing ''var a = 5;      '' = ''var a = 5;''" "stripTrailing [] = []"
    by (simp_all add: stripTrailing_def trailingRun_sixSpace)
  show ?thesis
    using trailing_runs_reported_and_removed [of sixSpaceBuffer] s t
    by (simp add: splitLines_sixSpaceBuffer trailingRun_sixSpace lineStart_simps)
qed

lemma scanLines_skips_blank:
  "v \<in> set (scanLines True n off ls) \<Longrightarrow>
     n \<le> v_line v \<and> v_line v < n + length ls \<and> \<not> list_all isBlankChar (ls ! (v_line v - n))"
proof (induction ls arbitrary: n off)
  case Nil
  then show ?case by simp
next
  case (Cons l ls)
  show ?case
  proof (cases "v \<in> set (scanLines True (n + 1) (off + length l + 1) ls)")
    case True
    from Cons.IH [OF True]
    have a: "Suc n \<le> v_line v" and b: "v_line v < Suc n + length ls"
      and c: "\<not> list_all isBlankChar (ls ! (v_line v - Suc n))"
      by simp_all
    from a have "v_line v - n = Suc (v_line v - Suc n)"
      by arith
    with a b c show ?thesis
      by simp
  next
    case False
    with Cons.prems have "v_line v = n" and "\<not> list_all isBlankChar l"
      by (auto simp: Let_def split: if_splits)
    then show ?thesis by simp
  qed
qed

lemma splitLines_blankLinesBuffer:
  "splitLines blankLinesBuffer = [''var a = '' @ quoted ''bar'' @ '';  '', '' '', [CHR 0x09]]"
  by (simp add: blankLinesBuffer_def quoted_def)

text \<open>
  C9. With \<open>skipBlankLines\<close>, every violation is on a line of the buffer that is not
  made of spaces and tabs only, so a whitespace-only line is never reported; on the
  buffer \<^verbatim>\<open>"var a = 'bar';  \n \n\t"\<close> there is exactly one violation, at line 1
  column 15.
\<close>

theorem blank_lines_skipped:
  "(\<forall>v \<in> set (lineEndScanner True src).
      1 \<le> v_line v \<and> v_line v \<le> length (splitLines src) \<and>
      \<not> list_all isBlankChar (splitLines src ! (v_line v - 1))) \<and>
   lineEndScanner True blankLinesBuffer =
     [\<lparr> v_message = ''Trailing spaces not allowed.'', v_line = 1, v_column = 15,
         fixSpan = (14, 16, []) \<rparr>]"
proof (intro conjI ballI)
  fix v
  assume "v \<in> set (lineEndScanner True src)"
  then have "v \<in> set (scanLines True 1 0 (splitLines src))"
    by (simp add: lineEndScanner_def)
  from scanLines_skips_blank [OF this]
  show "1 \<le> v_line v" and "v_line v \<le> length (splitLines src)"
    and "\<not> list_all isBlankChar (splitLines src ! (v_line v - 1))"
    by simp_all
next
  show "lineEndScanner True blankLinesBuffer =
     [\<lparr> v_message = ''Trailing spaces not allowed.'', v_line = 1, v_column = 15,
         fixSpan = (14, 16, []) \<rparr>]"
    by (simp add: lineEndScanner_def splitLines_blankLinesBuffer trailingRun_def isBlankChar_def
        quoted_def Let_def)
qed

theorem blank_lines_skipped_witness:
  "map v_line (lineEndScanner True blankLinesBuffer) = [1] \<and>
   map v_column (lineEndScanner True blankLinesBuffer) = [15] \<and>
   list_all isBlankChar (splitLines blankLinesBuffer ! 1) \<and>
   list_all isBlankChar (splitLines blankLinesBuffer ! 2) \<and>
   \<not> list_all isBlankChar (splitLines blankLinesBuffer ! 0) \<and>
   map v_line (lineEndScanner False blankLinesBuffer) = [1, 2, 3]"
proof -
  have f: "map v_line (lineEndScanner False blankLinesBuffer) = [1, 2, 3]"
    by (simp add: lineEndScanner_def splitLines_blankLinesBuffer trailingRun_def isBlankChar_def
        quoted_def Let_def)
  show ?thesis
    using blank_lines_skipped [of blankLinesBuffer] f
    by (simp add: splitLines_blankLinesBuffer isBlankChar_def)
qed

end
